theory Spec2Isabelle
  imports Main
begin

section \<open>The voice-assistant screen (src/screens/home.screen.tsx)\<close>

text \<open>
  The screen is one React component, \<open>HomeScreen\<close>. Its handlers are asynchronous
  functions that read and write six state variables and call external services
  (microphone, two HTTP endpoints, speech synthesis, modal alerts, timers).
  The embedding keeps the handlers' names and statement order. Every external call is
  recorded as an \<open>effect\<close> in a trace, and the answer of the outside world to each call
  is an explicit argument.
\<close>

subsection \<open>Effects\<close>

datatype effect =
    Delay nat                  \<comment> \<open>\<open>await\<close> on a promise resolved by \<open>setTimeout(resolve, ms)\<close>\<close>
  | Alert string string        \<comment> \<open>\<open>Alert.alert(title, message)\<close>\<close>
  | ConsoleError string        \<comment> \<open>\<open>console.error(label, error)\<close>\<close>
  | ConsoleWarn nat            \<comment> \<open>\<open>console.warn\<close> of line 141, with the seconds it prints\<close>
  | RequestPermission          \<comment> \<open>\<open>Audio.requestPermissionsAsync()\<close>\<close>
  | SetAudioMode bool          \<comment> \<open>\<open>Audio.setAudioModeAsync\<close>, with \<open>allowsRecordingIOS\<close>\<close>
  | CreateRecording            \<comment> \<open>\<open>Audio.Recording.createAsync\<close>\<close>
  | StopAndUnload nat          \<comment> \<open>\<open>recording.stopAndUnloadAsync()\<close> on a recording handle\<close>
  | Upload nat string          \<comment> \<open>the transcription POST: attempt number and audio URI\<close>
  | SetTimeout nat nat         \<comment> \<open>\<open>setTimeout\<close> of line 157: timer handle and milliseconds\<close>
  | ChatRequest string         \<comment> \<open>the chat-completion POST, with the user message's content\<close>
  | Abort nat                  \<comment> \<open>\<open>controller.abort()\<close> of the call that armed this timer\<close>
  | ClearTimeout nat           \<comment> \<open>\<open>clearTimeout(timeout)\<close>\<close>
  | Speak string               \<comment> \<open>\<open>Speech.speak(text, ...)\<close>\<close>

subsection \<open>The transcription client: \<open>sendAudioToWhisper\<close> (lines 102-151)\<close>

text \<open>
  What \<open>axios.post\<close> to the transcription endpoint does on one attempt: it resolves with
  a body whose \<open>text\<close> field is returned, or it rejects with an axios error of status
  429, or it rejects with anything else.
\<close>

datatype whisper_reply = Transcribed string | RateLimited | WhisperError

text \<open>
  The \<open>for\<close> loop of lines 108-149, from the iteration \<open>attempt\<close> on. The endpoint is
  a function from the attempt number to its reply. The result is the returned value
  (\<open>None\<close> is JavaScript's \<open>null\<close> of line 150) and the effects in order.
\<close>

function whisper_loop ::
  "(nat \<Rightarrow> whisper_reply) \<Rightarrow> string \<Rightarrow> nat \<Rightarrow> nat \<Rightarrow> string option \<times> effect list" where
  "whisper_loop endpoint uri retries attempt =
     (if attempt \<le> retries then
        (case endpoint attempt of
           Transcribed t \<Rightarrow> (Some t, [Upload attempt uri])
         | RateLimited \<Rightarrow>
             (if attempt = retries then
                (None, [Upload attempt uri,
                        Alert ''Rate Limit Reached''
                              ''Too many requests. Please wait a moment and try again.''])
              else
                (let backoffTime = 2 ^ attempt * 1000;
                     (r, es) = whisper_loop endpoint uri retries (attempt + 1)
                 in (r, Upload attempt uri # ConsoleWarn (backoffTime div 1000)
                          # Delay backoffTime # es)))
         | WhisperError \<Rightarrow>
             (None, [Upload attempt uri, ConsoleError ''Whisper API Error:'',
                     Alert ''Error'' ''Failed to transcribe audio.'']))
      else (None, []))"
  by pat_completeness auto
termination
  by (relation "measure (\<lambda>(endpoint, uri, retries, attempt). Suc retries - attempt)") auto

declare whisper_loop.simps [simp del]

definition sendAudioToWhisper ::
  "(nat \<Rightarrow> whisper_reply) \<Rightarrow> string \<Rightarrow> nat \<Rightarrow> string option \<times> effect list" where
  "sendAudioToWhisper endpoint uri retries =
     (let globalDelay = 500;
          (r, es) = whisper_loop endpoint uri retries 1
      in (r, Delay globalDelay # es))"

text \<open>The uploads among a list of effects, as attempt numbers.\<close>

fun uploads :: "effect list \<Rightarrow> nat list" where
  "uploads [] = []"
| "uploads (Upload k u # es) = k # uploads es"
| "uploads (e # es) = uploads es"

text \<open>The waits among a list of effects, in milliseconds.\<close>

fun delays :: "effect list \<Rightarrow> nat list" where
  "delays [] = []"
| "delays (Delay ms # es) = ms # delays es"
| "delays (e # es) = delays es"

subsection \<open>Component state\<close>

text \<open>
  The six \<open>useState\<close> variables of lines 24-29 under their own names (\<open>text\<close> is
  \<open>text'\<close>, since \<open>text\<close> is a keyword here), and what the runtime holds for the
  component: the armed timeout timers of \<open>sendToGpt\<close> as pairs of a handle and the
  milliseconds left, the next free timer handle, the number of utterances handed to the
  speech engine whose \<open>onDone\<close> has not run yet, the trace of effects, and the value of
  the four flags at each effect (\<open>frames\<close>).
\<close>

type_synonym flags = "bool \<times> bool \<times> bool \<times> bool"

record state =
  text' :: string
  isRecording :: bool
  loading :: bool
  recording :: "nat option"
  AIResponse :: bool
  AISpeaking :: bool
  timers :: "(nat \<times> nat) list"
  next_timer :: nat
  utterances :: nat
  trace :: "effect list"
  frames :: "flags list"

definition init :: state where
  "init = \<lparr>text' = [], isRecording = False, loading = False, recording = None,
           AIResponse = False, AISpeaking = False, timers = [], next_timer = 0,
           utterances = 0, trace = [], frames = []\<rparr>"

definition flags_of :: "state \<Rightarrow> flags" where
  "flags_of s = (isRecording s, loading s, AIResponse s, AISpeaking s)"

definition setText :: "string \<Rightarrow> state \<Rightarrow> state" where
  "setText v s = s\<lparr>text' := v\<rparr>"

definition setIsRecording :: "bool \<Rightarrow> state \<Rightarrow> state" where
  "setIsRecording v s = s\<lparr>isRecording := v\<rparr>"

definition setLoading :: "bool \<Rightarrow> state \<Rightarrow> state" where
  "setLoading v s = s\<lparr>loading := v\<rparr>"

definition setRecording :: "nat \<Rightarrow> state \<Rightarrow> state" where
  "setRecording h s = s\<lparr>recording := Some h\<rparr>"

definition setAIResponse :: "bool \<Rightarrow> state \<Rightarrow> state" where
  "setAIResponse v s = s\<lparr>AIResponse := v\<rparr>"

definition setAISpeaking :: "bool \<Rightarrow> state \<Rightarrow> state" where
  "setAISpeaking v s = s\<lparr>AISpeaking := v\<rparr>"

text \<open>Performing an effect appends it to the trace, with the flags at that moment.\<close>

definition emit :: "effect \<Rightarrow> state \<Rightarrow> state" where
  "emit e s = s\<lparr>trace := trace s @ [e], frames := frames s @ [flags_of s]\<rparr>"

definition alert :: "string \<Rightarrow> string \<Rightarrow> state \<Rightarrow> state" where
  "alert title msg s = emit (Alert title msg) s"

subsection \<open>Timers\<close>

text \<open>
  The callback given to \<open>setTimeout\<close> in lines 157-161. \<open>controller.abort()\<close> rejects
  the request of its own call if that request is in flight and does nothing otherwise;
  the two state changes happen in both cases.
\<close>

definition timeout_callback :: "nat \<Rightarrow> state \<Rightarrow> state" where
  "timeout_callback k s =
     alert ''Timeout'' ''The server took too long to respond.''
       (setLoading False (emit (Abort k) s))"

fun fire_due :: "nat \<Rightarrow> (nat \<times> nat) list \<Rightarrow> state \<Rightarrow> state" where
  "fire_due ms [] s = s"
| "fire_due ms ((k, r) # ts) s =
     (if r \<le> ms then fire_due ms ts (timeout_callback k s) else fire_due ms ts s)"

text \<open>
  \<open>elapse ms\<close> lets \<open>ms\<close> milliseconds pass: the timers that come due run their
  callback, in the order they were armed (all are armed for the same duration), the
  others have \<open>ms\<close> less to go.
\<close>

definition elapse :: "nat \<Rightarrow> state \<Rightarrow> state" where
  "elapse ms s =
     fire_due ms (timers s)
       (s\<lparr>timers := map (\<lambda>(k, r). (k, r - ms)) (filter (\<lambda>(k, r). ms < r) (timers s))\<rparr>)"

text \<open>
  The effects of the transcription client carried out on the component: a \<open>Delay\<close> is
  time passing, the rest is recorded.
\<close>

fun perform :: "effect list \<Rightarrow> state \<Rightarrow> state" where
  "perform [] s = s"
| "perform (Delay ms # es) s = perform es (elapse ms (emit (Delay ms) s))"
| "perform (e # es) s = perform es (emit e s)"

subsection \<open>The outside world\<close>

datatype perm_reply = Granted | Denied | PermError

text \<open>
  The chat-completion endpoint: it answers \<open>l\<close> milliseconds after the request was
  issued with the contents of the returned choices, or fails after \<open>l\<close> milliseconds
  (a rejected request), or never answers by itself.
\<close>

datatype chat_reply = Replies nat "string list" | Fails nat | Hangs

text \<open>
  What the services answer during one run of a handler: permission request, whether
  \<open>setAudioModeAsync\<close> resolves, the handle from \<open>createAsync\<close> (\<open>None\<close>: it
  throws), whether \<open>stopAndUnloadAsync\<close> resolves, the value of \<open>getURI()\<close>, the
  transcription endpoint by attempt, the chat endpoint. Only the waits of the program
  and the chat endpoint take time; the other services answer at once.
\<close>

record world =
  permission :: perm_reply
  audio_mode :: bool
  create :: "nat option"
  unload :: bool
  get_uri :: "string option"
  whisper :: "nat \<Rightarrow> whisper_reply"
  chat :: chat_reply

text \<open>JavaScript truthiness of a string that may be \<open>undefined\<close> or \<open>null\<close>.\<close>

fun truthy :: "string option \<Rightarrow> bool" where
  "truthy None = False"
| "truthy (Some v) = (v \<noteq> [])"

subsection \<open>The recorder: \<open>getMicrophonePermission\<close>, \<open>startRecording\<close> (lines 34-73)\<close>

definition getMicrophonePermission :: "world \<Rightarrow> state \<Rightarrow> bool \<times> state" where
  "getMicrophonePermission w s =
     (let s1 = emit RequestPermission s in
      case permission w of
        Granted \<Rightarrow> (True, s1)
      | Denied \<Rightarrow>
          (False, alert ''Permission'' ''Please grant permission to access the microphone.'' s1)
      | PermError \<Rightarrow>
          (False, alert ''Error'' ''Failed to get microphone permission.''
                    (emit (ConsoleError ''Microphone permission error:'') s1)))"

text \<open>The \<open>catch\<close> block of \<open>startRecording\<close> (lines 69-72).\<close>

definition startRecording_catch :: "state \<Rightarrow> state" where
  "startRecording_catch s =
     alert ''Error'' ''Failed to start recording.''
       (emit (ConsoleError ''Failed to start recording:'') s)"

text \<open>\<open>OPENAI_API_KEY\<close> (line 32) is a parameter: \<open>None\<close> when the configuration has none.\<close>

definition startRecording :: "string option \<Rightarrow> world \<Rightarrow> state \<Rightarrow> state" where
  "startRecording OPENAI_API_KEY w s =
     (if \<not> truthy OPENAI_API_KEY then
        alert ''Configuration Error'' ''OpenAI API Key is missing.'' s
      else
        (let (hasPermission, s1) = getMicrophonePermission w s in
         if \<not> hasPermission then s1
         else
           (let s2 = emit (SetAudioMode True) s1 in
            if \<not> audio_mode w then startRecording_catch s2
            else
              (let s3 = emit CreateRecording (setIsRecording True s2) in
               case create w of
                 None \<Rightarrow> startRecording_catch s3
               | Some h \<Rightarrow> setRecording h s3))))"

subsection \<open>Speech output: \<open>speakText\<close> (lines 203-208)\<close>

definition speakText :: "string \<Rightarrow> state \<Rightarrow> state" where
  "speakText t s = (emit (Speak t) (setAISpeaking True s))\<lparr>utterances := Suc (utterances s)\<rparr>"

text \<open>The \<open>onDone\<close> callback of line 206, run by the speech engine for a finished utterance.\<close>

definition onDone :: "state \<Rightarrow> state" where
  "onDone s = (setAISpeaking False s)\<lparr>utterances := utterances s - 1\<rparr>"

subsection \<open>The response client: \<open>sendToGpt\<close> (lines 154-201)\<close>

text \<open>The \<open>catch\<close> block of \<open>sendToGpt\<close> (lines 196-200).\<close>

definition sendToGpt_catch :: "state \<Rightarrow> state" where
  "sendToGpt_catch s =
     alert ''Error'' ''Failed to get AI response.''
       (setLoading False (emit (ConsoleError ''Error sending text to GPT:'') s))"

definition clearTimeout :: "nat \<Rightarrow> state \<Rightarrow> state" where
  "clearTimeout k s = (emit (ClearTimeout k) s)\<lparr>timers := filter (\<lambda>(i, r). i \<noteq> k) (timers s)\<rparr>"

text \<open>
  The timer is armed for 10000 ms when the call starts; the request goes out after the
  500 ms wait and so has 9500 ms. A reply that arrives before the timer is handled in
  lines 189-195; otherwise the timer's callback runs first, its \<open>abort\<close> rejects the
  pending request and control enters the \<open>catch\<close> block. A reply due at the very
  millisecond of the timer is taken to lose against it. An empty \<open>choices\<close> array makes
  \<open>response.data.choices[0].message\<close> throw, after \<open>clearTimeout\<close>.
\<close>

definition sendToGpt :: "chat_reply \<Rightarrow> string \<Rightarrow> state \<Rightarrow> state" where
  "sendToGpt reply inputText s =
     (let timeout = next_timer s;
          s1 = (emit (SetTimeout timeout 10000) s)
                 \<lparr>timers := timers s @ [(timeout, 10000)], next_timer := Suc timeout\<rparr>;
          globalDelay = 500;
          s2 = elapse globalDelay (emit (Delay globalDelay) s1);
          s3 = emit (ChatRequest inputText) s2;
          left = 10000 - globalDelay
      in case reply of
           Replies l choices \<Rightarrow>
             (if l < left then
                (let s4 = clearTimeout timeout (elapse l s3) in
                 case choices of
                   [] \<Rightarrow> sendToGpt_catch s4
                 | aiResponse # _ \<Rightarrow>
                     speakText aiResponse
                       (setLoading False (setAIResponse True (setText aiResponse s4))))
              else sendToGpt_catch (elapse left s3))
         | Fails l \<Rightarrow>
             (if l < left then sendToGpt_catch (elapse l s3)
              else sendToGpt_catch (elapse left s3))
         | Hangs \<Rightarrow> sendToGpt_catch (elapse left s3))"

subsection \<open>\<open>stopRecording\<close> (lines 75-100)\<close>

text \<open>The \<open>catch\<close> block of \<open>stopRecording\<close> (lines 95-99).\<close>

definition stopRecording_catch :: "state \<Rightarrow> state" where
  "stopRecording_catch s =
     setLoading False
       (alert ''Error'' ''Failed to process recording.''
          (emit (ConsoleError ''Failed to stop recording:'') s))"

text \<open>
  With no recording object (\<open>recording\<close> is \<open>undefined\<close>), \<open>recording?.\<close> skips both
  calls, \<open>uri\<close> is \<open>undefined\<close> and line 86 throws.
\<close>

definition stopRecording :: "world \<Rightarrow> state \<Rightarrow> state" where
  "stopRecording w s =
     (let s1 = setLoading True (setIsRecording False s);
          s2 = (case recording s of None \<Rightarrow> s1 | Some h \<Rightarrow> emit (StopAndUnload h) s1)
      in if recording s \<noteq> None \<and> \<not> unload w then stopRecording_catch s2
         else
           (let s3 = emit (SetAudioMode False) s2 in
            if \<not> audio_mode w then stopRecording_catch s3
            else
              (let uri = (case recording s of None \<Rightarrow> None | Some h \<Rightarrow> get_uri w) in
               if \<not> truthy uri then stopRecording_catch s3
               else
                 (let (transcript, es) = sendAudioToWhisper (whisper w) (the uri) 3;
                      s4 = perform es s3
                  in if truthy transcript then
                       sendToGpt (chat w) (the transcript) (setText (the transcript) s4)
                     else setLoading False s4))))"

subsection \<open>The rendered controls (lines 210-357)\<close>

text \<open>
  A user action carries the answers of the outside world for the handler it starts.
  \<open>SpeechDone\<close> is the speech engine finishing an utterance, \<open>Tick ms\<close> is time
  passing while no handler runs. A control can be pressed when it is rendered: the
  microphone in lines 256-299, the stop control in lines 301-311, back in line 238,
  regenerate and replay in line 335. \<open>step\<close> runs the handler of a press to its end:
  \<open>run\<close> gives the runs in which nothing else happens while a handler is in flight.
  The events that can come in between are those of \<open>react\<close> further down.
\<close>

datatype action =
    PressMic world
  | PressStop world
  | PressBack
  | PressRegenerate chat_reply
  | PressReplay
  | SpeechDone
  | Tick nat

fun step :: "string option \<Rightarrow> action \<Rightarrow> state \<Rightarrow> state" where
  "step key (PressMic w) s =
     (if \<not> loading s \<and> \<not> isRecording s \<and> \<not> AIResponse s then startRecording key w s else s)"
| "step key (PressStop w) s =
     (if \<not> loading s \<and> isRecording s then stopRecording w s else s)"
| "step key PressBack s =
     (if AIResponse s then setText [] (setAIResponse False (setIsRecording False s)) else s)"
| "step key (PressRegenerate r) s =
     (if AIResponse s then sendToGpt r (text' s) s else s)"
| "step key PressReplay s =
     (if AIResponse s then speakText (text' s) s else s)"
| "step key SpeechDone s = (if 0 < utterances s then onDone s else s)"
| "step key (Tick ms) s = elapse ms s"

fun run :: "string option \<Rightarrow> action list \<Rightarrow> state \<Rightarrow> state" where
  "run key [] s = s"
| "run key (a # as) s = run key as (step key a s)"

text \<open>The contents of the chat-completion requests among a list of effects.\<close>

fun chat_requests :: "effect list \<Rightarrow> string list" where
  "chat_requests [] = []"
| "chat_requests (ChatRequest c # es) = c # chat_requests es"
| "chat_requests (e # es) = chat_requests es"

text \<open>The network requests among a list of effects, in order.\<close>

fun requests :: "effect list \<Rightarrow> effect list" where
  "requests [] = []"
| "requests (Upload k u # es) = Upload k u # requests es"
| "requests (ChatRequest c # es) = ChatRequest c # requests es"
| "requests (e # es) = requests es"

text \<open>What the callbacks of the timers due within \<open>ms\<close> milliseconds add to the trace.\<close>

fun timeout_effects :: "nat \<Rightarrow> (nat \<times> nat) list \<Rightarrow> effect list" where
  "timeout_effects ms [] = []"
| "timeout_effects ms ((k, r) # ts) =
     (if r \<le> ms then Abort k # Alert ''Timeout'' ''The server took too long to respond.''
                        # timeout_effects ms ts
      else timeout_effects ms ts)"

text \<open>
  A reply that is not there 10 seconds after \<open>sendToGpt\<close> was called. The request
  goes out 500 ms into the call, so a reply after \<open>l\<close> ms is there at \<open>500 + l\<close>.
\<close>

fun misses_deadline :: "chat_reply \<Rightarrow> bool" where
  "misses_deadline Hangs = True"
| "misses_deadline (Fails l) = (10000 < 500 + l)"
| "misses_deadline (Replies l choices) = (10000 < 500 + l)"

subsection \<open>Interaction states\<close>

text \<open>
  The five interaction states as combinations of the flags \<open>isRecording\<close>, \<open>loading\<close>,
  \<open>AIResponse\<close>, \<open>AISpeaking\<close>, read off the render function: \<open>loading\<close> shows the
  loading animation (line 256), \<open>isRecording\<close> the stop control (line 302),
  \<open>AIResponse\<close> the response view with back, regenerate and replay (lines 238, 270,
  335), none of them the microphone (line 291); \<open>AISpeaking\<close> is set by \<open>speakText\<close>
  and cleared by \<open>onDone\<close>.
\<close>

datatype interaction_state = Idle | Recording | Processing | ResponseReady | Speaking

fun classify :: "flags \<Rightarrow> interaction_state option" where
  "classify (False, False, False, False) = Some Idle"
| "classify (True, False, False, False) = Some Recording"
| "classify (False, True, False, False) = Some Processing"
| "classify (False, False, True, False) = Some ResponseReady"
| "classify (False, False, True, True) = Some Speaking"
| "classify (r, l, a, sp) = None"

text \<open>At most one of \<open>isRecording\<close>, \<open>loading\<close>, \<open>AIResponse\<close> is set.\<close>

fun exclusive :: "flags \<Rightarrow> bool" where
  "exclusive (r, l, a, sp) = (\<not> (r \<and> l) \<and> \<not> (r \<and> a) \<and> \<not> (l \<and> a))"

subsection \<open>Sample answers of the outside world\<close>

text \<open>
  Everything works: the recording is transcribed as "Hello" at the first attempt and the
  chat endpoint answers "Hi there" after 800 ms.
\<close>

definition hello_world :: world where
  "hello_world =
     \<lparr>permission = Granted, audio_mode = True, create = Some 1, unload = True,
      get_uri = Some ''file:///recording.wav'',
      whisper = (\<lambda>attempt. Transcribed ''Hello''),
      chat = Replies 800 [''Hi there'']\<rparr>"

text \<open>The transcription endpoint is rate limited twice and then answers.\<close>

definition third_time_lucky :: "nat \<Rightarrow> whisper_reply" where
  "third_time_lucky attempt = (if attempt < 3 then RateLimited else Transcribed ''Hello'')"

text \<open>Rate limited on the first three attempts; it would answer a fourth.\<close>

definition fourth_would_answer :: "nat \<Rightarrow> whisper_reply" where
  "fourth_would_answer attempt = (if attempt \<le> 3 then RateLimited else Transcribed ''Hello'')"

text \<open>The recording is silent: the transcription succeeds with an empty text.\<close>

definition silent_world :: world where
  "silent_world = hello_world\<lparr>whisper := (\<lambda>attempt. Transcribed [])\<rparr>"

text \<open>Permission and audio mode are fine, but \<open>createAsync\<close> throws.\<close>

definition no_session_world :: world where
  "no_session_world = hello_world\<lparr>create := None\<rparr>"

subsection \<open>Handlers suspended at their awaits\<close>

text \<open>
  \<open>step\<close> and \<open>run\<close> above let every handler run to its end before the next action.
  In the program a handler gives up control at each \<open>await\<close>, and presses, the
  \<open>onDone\<close> callback and timers can act before it goes on. Here a handler in flight is
  a \<open>task\<close> that names the \<open>await\<close> it is suspended at, with the values its closure
  holds: \<open>startRecording\<close> at lines 36, 59 and 64; \<open>stopRecording\<close> at lines 80
  and 81 (with the \<open>recording\<close> it captured); \<open>sendAudioToWhisper\<close> at lines 106,
  118 and 142 (with \<open>uri\<close>, \<open>retries\<close>, \<open>attempt\<close>); \<open>sendToGpt\<close> at lines 164
  and 166 (with the handle of its timer and \<open>inputText\<close>).
\<close>

datatype task =
    AwaitPermission
  | AwaitAudioModeStart
  | AwaitCreate
  | AwaitUnload nat
  | AwaitAudioModeStop "nat option"
  | AwaitWarmup string nat
  | AwaitUpload string nat nat
  | AwaitBackoff string nat nat
  | AwaitGptDelay nat string
  | AwaitGptReply nat string

type_synonym screen = "state \<times> task list"

text \<open>\<open>sendToGpt\<close> from its call to the \<open>await\<close> of line 164.\<close>

definition sendToGpt_begin :: "string \<Rightarrow> state \<Rightarrow> state \<times> task option" where
  "sendToGpt_begin inputText s =
     (let timeout = next_timer s;
          s1 = (emit (SetTimeout timeout 10000) s)
                 \<lparr>timers := timers s @ [(timeout, 10000)], next_timer := Suc timeout\<rparr>;
          globalDelay = 500
      in (emit (Delay globalDelay) s1, Some (AwaitGptDelay timeout inputText)))"

text \<open>\<open>stopRecording\<close> once \<open>sendAudioToWhisper\<close> has returned (lines 89-94).\<close>

definition stopRecording_resume :: "string option \<Rightarrow> state \<Rightarrow> state \<times> task option" where
  "stopRecording_resume transcript s =
     (if truthy transcript then sendToGpt_begin (the transcript) (setText (the transcript) s)
      else (setLoading False s, None))"

text \<open>
  \<open>settle w t s\<close>: the promise that task \<open>t\<close> awaits settles as \<open>w\<close> says, and the
  handler runs on to its next \<open>await\<close> (the new task) or to its end (\<open>None\<close>). The
  position of the event in a schedule stands for its time: the latency inside a chat
  reply is not used here, and a chat endpoint that hangs settles nothing.
\<close>

fun settle :: "world \<Rightarrow> task \<Rightarrow> state \<Rightarrow> state \<times> task option" where
  "settle w AwaitPermission s =
     (case permission w of
        Granted \<Rightarrow> (emit (SetAudioMode True) s, Some AwaitAudioModeStart)
      | Denied \<Rightarrow>
          (alert ''Permission'' ''Please grant permission to access the microphone.'' s, None)
      | PermError \<Rightarrow>
          (alert ''Error'' ''Failed to get microphone permission.''
             (emit (ConsoleError ''Microphone permission error:'') s), None))"
| "settle w AwaitAudioModeStart s =
     (if \<not> audio_mode w then (startRecording_catch s, None)
      else (emit CreateRecording (setIsRecording True s), Some AwaitCreate))"
| "settle w AwaitCreate s =
     (case create w of
        None \<Rightarrow> (startRecording_catch s, None)
      | Some h \<Rightarrow> (setRecording h s, None))"
| "settle w (AwaitUnload h) s =
     (if \<not> unload w then (stopRecording_catch s, None)
      else (emit (SetAudioMode False) s, Some (AwaitAudioModeStop (Some h))))"
| "settle w (AwaitAudioModeStop r) s =
     (if \<not> audio_mode w then (stopRecording_catch s, None)
      else
        (let uri = (case r of None \<Rightarrow> None | Some h \<Rightarrow> get_uri w) in
         if \<not> truthy uri then (stopRecording_catch s, None)
         else
           (let globalDelay = 500
            in (emit (Delay globalDelay) s, Some (AwaitWarmup (the uri) 3)))))"
| "settle w (AwaitWarmup uri retries) s =
     (if 1 \<le> retries then (emit (Upload 1 uri) s, Some (AwaitUpload uri retries 1))
      else stopRecording_resume None s)"
| "settle w (AwaitUpload uri retries attempt) s =
     (case whisper w attempt of
        Transcribed t \<Rightarrow> stopRecording_resume (Some t) s
      | RateLimited \<Rightarrow>
          (if attempt = retries then
             stopRecording_resume None
               (alert ''Rate Limit Reached''
                  ''Too many requests. Please wait a moment and try again.'' s)
           else
             (let backoffTime = 2 ^ attempt * 1000
              in (emit (Delay backoffTime) (emit (ConsoleWarn (backoffTime div 1000)) s),
                  Some (AwaitBackoff uri retries attempt))))
      | WhisperError \<Rightarrow>
          stopRecording_resume None
            (alert ''Error'' ''Failed to transcribe audio.''
               (emit (ConsoleError ''Whisper API Error:'') s)))"
| "settle w (AwaitBackoff uri retries attempt) s =
     (if attempt + 1 \<le> retries then
        (emit (Upload (attempt + 1) uri) s, Some (AwaitUpload uri retries (attempt + 1)))
      else stopRecording_resume None s)"
| "settle w (AwaitGptDelay timeout inputText) s =
     (emit (ChatRequest inputText) s, Some (AwaitGptReply timeout inputText))"
| "settle w (AwaitGptReply timeout inputText) s =
     (case chat w of
        Replies l choices \<Rightarrow>
          (let s4 = clearTimeout timeout s in
           case choices of
             [] \<Rightarrow> (sendToGpt_catch s4, None)
           | aiResponse # _ \<Rightarrow>
               (speakText aiResponse
                  (setLoading False (setAIResponse True (setText aiResponse s4))), None))
      | Fails l \<Rightarrow> (sendToGpt_catch s, None)
      | Hangs \<Rightarrow> (s, Some (AwaitGptReply timeout inputText)))"

datatype control = Mic | Stop | Back | Regenerate | Replay

fun start :: "state \<times> task option \<Rightarrow> task list \<Rightarrow> screen" where
  "start (s, None) ts = (s, ts)"
| "start (s, Some t) ts = (s, ts @ [t])"

text \<open>
  A press of a rendered control runs its handler up to the first \<open>await\<close>. With no
  recording object \<open>await recording?.stopAndUnloadAsync()\<close> awaits \<open>undefined\<close>, which
  lets no press, callback or timer in, so \<open>stopRecording\<close> then runs on to line 81.
\<close>

fun press :: "string option \<Rightarrow> control \<Rightarrow> screen \<Rightarrow> screen" where
  "press key Mic (s, ts) =
     (if \<not> loading s \<and> \<not> isRecording s \<and> \<not> AIResponse s then
        (if \<not> truthy key then
           (alert ''Configuration Error'' ''OpenAI API Key is missing.'' s, ts)
         else (emit RequestPermission s, ts @ [AwaitPermission]))
      else (s, ts))"
| "press key Stop (s, ts) =
     (if \<not> loading s \<and> isRecording s then
        (let s1 = setLoading True (setIsRecording False s) in
         case recording s of
           None \<Rightarrow> (emit (SetAudioMode False) s1, ts @ [AwaitAudioModeStop None])
         | Some h \<Rightarrow> (emit (StopAndUnload h) s1, ts @ [AwaitUnload h]))
      else (s, ts))"
| "press key Back (s, ts) =
     (if AIResponse s then (setText [] (setAIResponse False (setIsRecording False s)), ts)
      else (s, ts))"
| "press key Regenerate (s, ts) =
     (if AIResponse s then start (sendToGpt_begin (text' s) s) ts else (s, ts))"
| "press key Replay (s, ts) =
     (if AIResponse s then (speakText (text' s) s, ts) else (s, ts))"

fun awaits_reply :: "nat \<Rightarrow> task \<Rightarrow> bool" where
  "awaits_reply k (AwaitGptReply timeout inputText) = (timeout = k)"
| "awaits_reply k t = False"

fun awaits_delay :: "nat \<Rightarrow> task \<Rightarrow> bool" where
  "awaits_delay k (AwaitGptDelay timeout inputText) = (timeout = k)"
| "awaits_delay k t = False"

text \<open>
  The armed timer \<open>k\<close> comes due: its callback runs, and if the request of its call is
  pending, \<open>abort\<close> rejects it and that call goes through its \<open>catch\<close> block and ends.
  A timer of 10000 ms does not come due during the 500 ms wait of its own call.
\<close>

definition fire :: "nat \<Rightarrow> screen \<Rightarrow> screen" where
  "fire k \<sigma> =
     (case \<sigma> of (s, ts) \<Rightarrow>
        if k \<in> set (map fst (timers s)) \<and> \<not> list_ex (awaits_delay k) ts then
          (let s1 = timeout_callback k (s\<lparr>timers := filter (\<lambda>(i, r). i \<noteq> k) (timers s)\<rparr>)
           in if list_ex (awaits_reply k) ts
              then (sendToGpt_catch s1, filter (\<lambda>t. \<not> awaits_reply k t) ts)
              else (s1, ts))
        else (s, ts))"

text \<open>
  An event: a press, the promise awaited by the task at position \<open>i\<close> settling, a timer
  coming due, the speech engine finishing an utterance. A schedule is a list of events.
\<close>

datatype event = Press control | Settle nat world | Fire nat | Done

fun react :: "string option \<Rightarrow> event \<Rightarrow> screen \<Rightarrow> screen" where
  "react key (Press c) \<sigma> = press key c \<sigma>"
| "react key (Settle i w) (s, ts) =
     (if i < length ts then
        (case settle w (ts ! i) s of
           (s', None) \<Rightarrow> (s', take i ts @ drop (Suc i) ts)
         | (s', Some t) \<Rightarrow> (s', ts[i := t]))
      else (s, ts))"
| "react key (Fire k) \<sigma> = fire k \<sigma>"
| "react key Done (s, ts) = (if 0 < utterances s then onDone s else s, ts)"

fun exec :: "string option \<Rightarrow> event list \<Rightarrow> screen \<Rightarrow> screen" where
  "exec key [] \<sigma> = \<sigma>"
| "exec key (e # es) \<sigma> = exec key es (react key e \<sigma>)"

text \<open>
  A schedule in which the microphone is not pressed while a handler is in flight. The
  other controls, the services, the timers and the speech engine act at any time.
\<close>

fun undisturbed :: "string option \<Rightarrow> event list \<Rightarrow> screen \<Rightarrow> bool" where
  "undisturbed key [] \<sigma> = True"
| "undisturbed key (Press Mic # es) \<sigma> =
     (snd \<sigma> = [] \<and> undisturbed key es (react key (Press Mic) \<sigma>))"
| "undisturbed key (e # es) \<sigma> = undisturbed key es (react key e \<sigma>)"

text \<open>
  What an undisturbed schedule keeps true. A task of \<open>startRecording\<close> that has not
  reached line 63 is \<open>early\<close>: it is the only handler in flight and finds the three
  rendering flags clear. A task of \<open>stopRecording\<close>, \<open>sendAudioToWhisper\<close> or
  \<open>sendToGpt\<close> is \<open>late\<close>: it finds \<open>isRecording\<close> clear.
\<close>

fun early :: "task \<Rightarrow> bool" where
  "early AwaitPermission = True"
| "early AwaitAudioModeStart = True"
| "early t = False"

fun late :: "task \<Rightarrow> bool" where
  "late AwaitPermission = False"
| "late AwaitAudioModeStart = False"
| "late AwaitCreate = False"
| "late t = True"

definition calm :: "screen \<Rightarrow> bool" where
  "calm \<sigma> =
     (case \<sigma> of (s, ts) \<Rightarrow>
        exclusive (flags_of s)
        \<and> (list_ex early ts \<longrightarrow>
              length ts = 1 \<and> \<not> isRecording s \<and> \<not> loading s \<and> \<not> AIResponse s)
        \<and> (list_ex late ts \<longrightarrow> \<not> isRecording s))"

text \<open>
  The successful cycle of \<open>hello_world\<close>, event by event: microphone, permission, audio
  mode, recording created; stop, recording unloaded, audio mode, warm-up wait, upload,
  wait of \<open>sendToGpt\<close>, chat reply.
\<close>

definition sample_cycle :: "event list" where
  "sample_cycle =
     [Press Mic, Settle 0 hello_world, Settle 0 hello_world, Settle 0 hello_world,
      Press Stop, Settle 0 hello_world, Settle 0 hello_world, Settle 0 hello_world,
      Settle 0 hello_world, Settle 0 hello_world, Settle 0 hello_world]"

section \<open>Properties\<close>

subsection \<open>Fields after time has passed\<close>

lemma fire_due_fields [simp]:
  "text' (fire_due ms ts s) = text' s"
  "isRecording (fire_due ms ts s) = isRecording s"
  "recording (fire_due ms ts s) = recording s"
  "AIResponse (fire_due ms ts s) = AIResponse s"
  "AISpeaking (fire_due ms ts s) = AISpeaking s"
  "timers (fire_due ms ts s) = timers s"
  "next_timer (fire_due ms ts s) = next_timer s"
  "utterances (fire_due ms ts s) = utterances s"
  by (induction ms ts s rule: fire_due.induct)
     (simp_all add: timeout_callback_def alert_def emit_def setLoading_def)

lemma fire_due_trace [simp]:
  "trace (fire_due ms ts s) = trace s @ timeout_effects ms ts"
  by (induction ms ts s rule: fire_due.induct)
     (simp_all add: timeout_callback_def alert_def emit_def setLoading_def)

lemma fire_due_loading:
  "loading (fire_due ms ts s) = (loading s \<and> timeout_effects ms ts = [])"
  by (induction ms ts s rule: fire_due.induct)
     (auto simp add: timeout_callback_def alert_def emit_def setLoading_def)

lemma elapse_fields [simp]:
  "text' (elapse ms s) = text' s"
  "isRecording (elapse ms s) = isRecording s"
  "recording (elapse ms s) = recording s"
  "AIResponse (elapse ms s) = AIResponse s"
  "AISpeaking (elapse ms s) = AISpeaking s"
  "next_timer (elapse ms s) = next_timer s"
  "utterances (elapse ms s) = utterances s"
  "timers (elapse ms s) = map (\<lambda>(k, r). (k, r - ms)) (filter (\<lambda>(k, r). ms < r) (timers s))"
  "trace (elapse ms s) = trace s @ timeout_effects ms (timers s)"
  "loading (elapse ms s) = (loading s \<and> timeout_effects ms (timers s) = [])"
  by (simp_all add: elapse_def fire_due_loading)

lemma elapse_no_timers [simp]: "timers s = [] \<Longrightarrow> elapse ms s = s"
  by (simp add: elapse_def)

lemma timeout_effects_append [simp]:
  "timeout_effects ms (ts @ us) = timeout_effects ms ts @ timeout_effects ms us"
  by (induction ms ts rule: timeout_effects.induct) simp_all

subsection \<open>The response client, case by case\<close>

lemmas handler_defs =
  startRecording_def getMicrophonePermission_def startRecording_catch_def
  stopRecording_def stopRecording_catch_def sendToGpt_def sendToGpt_catch_def
  clearTimeout_def speakText_def onDone_def timeout_callback_def
  alert_def emit_def flags_of_def
  setText_def setIsRecording_def setLoading_def setRecording_def
  setAIResponse_def setAISpeaking_def sendAudioToWhisper_def Let_def

lemma sendToGpt_late:
  "misses_deadline reply \<Longrightarrow> sendToGpt reply inputText s = sendToGpt Hangs inputText s"
  by (cases reply) (simp_all add: sendToGpt_def Let_def)

lemma sendToGpt_Hangs_fields:
  "\<not> loading (sendToGpt Hangs inputText s)"
  "text' (sendToGpt Hangs inputText s) = text' s"
  "isRecording (sendToGpt Hangs inputText s) = isRecording s"
  "AIResponse (sendToGpt Hangs inputText s) = AIResponse s"
  "AISpeaking (sendToGpt Hangs inputText s) = AISpeaking s"
  by (simp_all add: handler_defs)

lemma sendToGpt_Hangs_trace:
  "trace (sendToGpt Hangs inputText s) =
     trace s @ [SetTimeout (next_timer s) 10000, Delay 500]
       @ timeout_effects 500 (timers s)
       @ [ChatRequest inputText]
       @ timeout_effects 9500 (timers (elapse 500 s))
       @ [Abort (next_timer s), Alert ''Timeout'' ''The server took too long to respond.'',
          ConsoleError ''Error sending text to GPT:'',
          Alert ''Error'' ''Failed to get AI response.'']"
  by (simp add: handler_defs)

lemma sendToGpt_Replies_fields:
  assumes "l < 9500"
  shows "text' (sendToGpt (Replies l (c # cs)) inputText s) = c"
    and "AIResponse (sendToGpt (Replies l (c # cs)) inputText s)"
    and "AISpeaking (sendToGpt (Replies l (c # cs)) inputText s)"
    and "\<not> loading (sendToGpt (Replies l (c # cs)) inputText s)"
    and "isRecording (sendToGpt (Replies l (c # cs)) inputText s) = isRecording s"
    and "next_timer s \<notin> fst ` set (timers (sendToGpt (Replies l (c # cs)) inputText s))"
  using assms by (auto simp add: handler_defs)

lemma sendToGpt_Replies_trace:
  "l < 9500 \<Longrightarrow> trace (sendToGpt (Replies l (c # cs)) inputText s) =
     trace s @ [SetTimeout (next_timer s) 10000, Delay 500]
       @ timeout_effects 500 (timers s)
       @ [ChatRequest inputText]
       @ timeout_effects l (timers (elapse 500 s))
       @ [ClearTimeout (next_timer s), Speak c]"
  by (simp add: handler_defs)

lemma sendToGpt_Fails_fields:
  assumes "l < 9500"
  shows "\<not> loading (sendToGpt (Fails l) inputText s)"
    and "text' (sendToGpt (Fails l) inputText s) = text' s"
    and "isRecording (sendToGpt (Fails l) inputText s) = isRecording s"
    and "AIResponse (sendToGpt (Fails l) inputText s) = AIResponse s"
    and "AISpeaking (sendToGpt (Fails l) inputText s) = AISpeaking s"
  using assms by (simp_all add: handler_defs)

lemma sendToGpt_Fails_trace:
  "l < 9500 \<Longrightarrow> trace (sendToGpt (Fails l) inputText s) =
     trace s @ [SetTimeout (next_timer s) 10000, Delay 500]
       @ timeout_effects 500 (timers s)
       @ [ChatRequest inputText]
       @ timeout_effects l (timers (elapse 500 s))
       @ [ConsoleError ''Error sending text to GPT:'',
          Alert ''Error'' ''Failed to get AI response.'']"
  by (simp add: handler_defs)

lemma sendToGpt_Fails_timers:
  "l < 9500 \<Longrightarrow> timers (sendToGpt (Fails l) inputText s) =
     timers (elapse l (elapse 500 s)) @ [(next_timer s, 9500 - l)]"
  by (simp add: handler_defs)

subsection \<open>Undisturbed schedules\<close>

lemmas block_defs =
  flags_of_def emit_def alert_def setText_def setIsRecording_def setLoading_def
  setRecording_def setAIResponse_def setAISpeaking_def startRecording_catch_def
  stopRecording_catch_def sendToGpt_catch_def clearTimeout_def speakText_def onDone_def
  timeout_callback_def stopRecording_resume_def sendToGpt_begin_def Let_def

lemma calmI:
  assumes "exclusive (flags_of s)"
    and "\<And>t. t \<in> set ts \<Longrightarrow> early t \<Longrightarrow>
           ts = [t] \<and> \<not> isRecording s \<and> \<not> loading s \<and> \<not> AIResponse s"
    and "\<And>t. t \<in> set ts \<Longrightarrow> late t \<Longrightarrow> \<not> isRecording s"
  shows "calm (s, ts)"
proof -
  have "length ts = 1 \<and> \<not> isRecording s \<and> \<not> loading s \<and> \<not> AIResponse s"
    if "list_ex early ts"
  proof -
    from that obtain t where "t \<in> set ts" "early t" by (auto simp add: list_ex_iff)
    from assms(2) [OF this] show ?thesis by simp
  qed
  moreover have "\<not> isRecording s" if "list_ex late ts"
    using that assms(3) by (auto simp add: list_ex_iff)
  ultimately show ?thesis using assms(1) by (simp add: calm_def)
qed

lemma calm_exclusive: "calm (s, ts) \<Longrightarrow> exclusive (flags_of s)"
  by (simp add: calm_def)

lemma calm_early:
  "calm (s, ts) \<Longrightarrow> t \<in> set ts \<Longrightarrow> early t \<Longrightarrow>
   ts = [t] \<and> \<not> isRecording s \<and> \<not> loading s \<and> \<not> AIResponse s"
proof -
  assume c: "calm (s, ts)" and t: "t \<in> set ts" "early t"
  then have "list_ex early ts" by (auto simp add: list_ex_iff)
  with c have l: "length ts = 1" and f: "\<not> isRecording s \<and> \<not> loading s \<and> \<not> AIResponse s"
    by (simp_all add: calm_def)
  from l t(1) have "ts = [t]" by (cases ts) auto
  with f show ?thesis by simp
qed

lemma calm_late: "calm (s, ts) \<Longrightarrow> t \<in> set ts \<Longrightarrow> late t \<Longrightarrow> \<not> isRecording s"
  by (auto simp add: calm_def list_ex_iff)

text \<open>What one step of a handler does to the flags, by the kind of task.\<close>

lemma settle_early:
  assumes "early t" and "\<not> isRecording s" and "\<not> loading s" and "\<not> AIResponse s"
    and "settle w t s = (s', r)"
  shows "exclusive (flags_of s')"
    and "r = Some t' \<Longrightarrow> \<not> late t'"
    and "r = Some t' \<Longrightarrow> early t' \<Longrightarrow> \<not> isRecording s' \<and> \<not> loading s' \<and> \<not> AIResponse s'"
  using assms
  by (cases t; auto simp add: block_defs split: perm_reply.splits if_splits)+

lemma settle_create:
  assumes "settle w AwaitCreate s = (s', r)"
  shows "isRecording s' = isRecording s" and "loading s' = loading s"
    and "AIResponse s' = AIResponse s" and "r = None"
  using assms by (auto simp add: block_defs split: option.splits)

lemma settle_late:
  assumes "late t" and "exclusive (flags_of s)" and "\<not> isRecording s"
    and "settle w t s = (s', r)"
  shows "exclusive (flags_of s')" and "\<not> isRecording s'" and "r = Some t' \<Longrightarrow> late t'"
  using assms
  by (cases t;
      auto simp add: block_defs
        split: option.splits whisper_reply.splits chat_reply.splits list.splits if_splits)+

lemma task_kinds: "early t \<or> t = AwaitCreate \<or> late t"
  by (cases t) simp_all

lemma late_not_early: "late t \<Longrightarrow> \<not> early t"
  by (cases t) simp_all

lemma in_set_removed: "t \<in> set (take i ts @ drop (Suc i) ts) \<Longrightarrow> t \<in> set ts"
  by (auto dest: in_set_takeD in_set_dropD)

lemma in_set_replaced: "t \<in> set (ts[i := u]) \<Longrightarrow> t = u \<or> t \<in> set ts"
  using set_update_subset_insert [of ts i u] by auto

lemma calm_react_Settle:
  assumes c: "calm (s, ts)"
  shows "calm (react key (Settle i w) (s, ts))"
proof (cases "i < length ts")
  case False
  with c show ?thesis by simp
next
  case True
  let ?t = "ts ! i"
  from True have mem: "?t \<in> set ts" by simp
  obtain s' r where st: "settle w ?t s = (s', r)" by (cases "settle w ?t s")
  from task_kinds [of ?t] show ?thesis
  proof (elim disjE)
    assume e: "early ?t"
    from calm_early [OF c mem e]
    have one: "ts = [?t]" and f: "\<not> isRecording s" "\<not> loading s" "\<not> AIResponse s"
      by simp_all
    from one True have i: "i = 0" by (cases ts) auto
    note x = settle_early(1) [OF e f st]
    show ?thesis
    proof (cases r)
      case None
      with one i st True have "react key (Settle i w) (s, ts) = (s', [])"
        by (cases ts) auto
      with x show ?thesis by (simp add: calm_def)
    next
      case (Some t')
      with one i st True have "react key (Settle i w) (s, ts) = (s', [t'])"
        by (cases ts) auto
      with x settle_early(2,3) [OF e f st Some] show ?thesis by (auto simp add: calm_def)
    qed
  next
    assume cr: "?t = AwaitCreate"
    from st cr have st': "settle w AwaitCreate s = (s', r)" by simp
    note same = settle_create(1,2,3) [OF st'] and r = settle_create(4) [OF st']
    have fl: "exclusive (flags_of s')"
      using calm_exclusive [OF c] same by (simp add: flags_of_def)
    have nearly: "\<not> early t" if "t \<in> set ts" for t
    proof
      assume "early t"
      from calm_early [OF c that this] have "ts = [t]" by simp
      with mem have "?t = t" by simp
      with cr \<open>early t\<close> show False by simp
    qed
    have "calm (s', take i ts @ drop (Suc i) ts)"
    proof (rule calmI [OF fl])
      fix t assume "t \<in> set (take i ts @ drop (Suc i) ts)" and "early t"
      with nearly [OF in_set_removed] show
        "take i ts @ drop (Suc i) ts = [t] \<and> \<not> isRecording s' \<and> \<not> loading s' \<and> \<not> AIResponse s'"
        by blast
    next
      fix t assume "t \<in> set (take i ts @ drop (Suc i) ts)" and "late t"
      with calm_late [OF c in_set_removed] same show "\<not> isRecording s'" by simp
    qed
    with True st r show ?thesis by simp
  next
    assume l: "late ?t"
    from calm_late [OF c mem l] have nr: "\<not> isRecording s" .
    note x = settle_late(1) [OF l calm_exclusive [OF c] nr st]
      and nr' = settle_late(2) [OF l calm_exclusive [OF c] nr st]
    have nearly: "\<not> early t" if "t \<in> set ts" for t
    proof
      assume "early t"
      from calm_early [OF c that this] have "ts = [t]" by simp
      with mem have "?t = t" by simp
      with l \<open>early t\<close> late_not_early show False by simp
    qed
    show ?thesis
    proof (cases r)
      case None
      have "calm (s', take i ts @ drop (Suc i) ts)"
      proof (rule calmI [OF x])
        fix t assume "t \<in> set (take i ts @ drop (Suc i) ts)" and "early t"
        with nearly [OF in_set_removed] show
          "take i ts @ drop (Suc i) ts = [t] \<and> \<not> isRecording s' \<and> \<not> loading s' \<and> \<not> AIResponse s'"
          by blast
      next
        fix t assume "t \<in> set (take i ts @ drop (Suc i) ts)" and "late t"
        from nr' show "\<not> isRecording s'" .
      qed
      with True st None show ?thesis by simp
    next
      case (Some t')
      then have lt: "late t'" by (rule settle_late(3) [OF l calm_exclusive [OF c] nr st])
      have "calm (s', ts[i := t'])"
      proof (rule calmI [OF x])
        fix t assume m: "t \<in> set (ts[i := t'])" and e: "early t"
        from m have "t = t' \<or> t \<in> set ts" by (rule in_set_replaced)
        with e lt late_not_early nearly show
          "ts[i := t'] = [t] \<and> \<not> isRecording s' \<and> \<not> loading s' \<and> \<not> AIResponse s'"
          by blast
      next
        fix t assume "t \<in> set (ts[i := t'])" and "late t"
        from nr' show "\<not> isRecording s'" .
      qed
      with True st Some show ?thesis by simp
    qed
  qed
qed

lemma calm_press:
  assumes c: "calm (s, ts)" and m: "c' = Mic \<Longrightarrow> ts = []"
  shows "calm (press key c' (s, ts))"
proof -
  have x: "exclusive (flags_of s)" by (rule calm_exclusive [OF c])
  have ne: "\<not> early t" if "t \<in> set ts" "isRecording s \<or> AIResponse s" for t
    using calm_early [OF c that(1)] that(2) by blast
  have nl: "\<not> late t" if "t \<in> set ts" "isRecording s" for t
    using calm_late [OF c that(1)] that(2) by blast
  show ?thesis
  proof (cases c')
    case Mic
    with m c show ?thesis
      by (auto simp add: calm_def block_defs)
  next
    case Stop
    show ?thesis
    proof (cases "\<not> loading s \<and> isRecording s")
      case False
      with Stop c show ?thesis by auto
    next
      case True
      let ?s1 = "setLoading True (setIsRecording False s)"
      from True x have a: "\<not> AIResponse s" by (simp add: flags_of_def)
      have x1: "exclusive (flags_of (emit e ?s1))" for e
        using a by (simp add: block_defs)
      have r1: "\<not> isRecording (emit e ?s1)" for e
        by (simp add: block_defs)
      have "calm (emit e ?s1, ts @ [t])" if "late t" for e t
      proof (rule calmI [OF x1])
        fix u assume "u \<in> set (ts @ [t])" and "early u"
        with ne True that late_not_early show
          "ts @ [t] = [u] \<and> \<not> isRecording (emit e ?s1) \<and> \<not> loading (emit e ?s1)
             \<and> \<not> AIResponse (emit e ?s1)"
          by auto
      next
        fix u assume "u \<in> set (ts @ [t])" and "late u"
        show "\<not> isRecording (emit e ?s1)" by (rule r1)
      qed
      with Stop True show ?thesis
        by (auto simp add: Let_def split: option.splits)
    qed
  next
    case Back
    show ?thesis
    proof (cases "AIResponse s")
      case False
      with Back c show ?thesis by auto
    next
      case True
      let ?s1 = "setText [] (setAIResponse False (setIsRecording False s))"
      have "calm (?s1, ts)"
      proof (rule calmI)
        show "exclusive (flags_of ?s1)" using x by (simp add: block_defs)
      next
        fix u assume "u \<in> set ts" and "early u"
        with ne True show
          "ts = [u] \<and> \<not> isRecording ?s1 \<and> \<not> loading ?s1 \<and> \<not> AIResponse ?s1"
          by blast
      next
        fix u assume "u \<in> set ts" and "late u"
        show "\<not> isRecording ?s1" by (simp add: block_defs)
      qed
      with Back True show ?thesis by simp
    qed
  next
    case Regenerate
    show ?thesis
    proof (cases "AIResponse s")
      case False
      with Regenerate c show ?thesis by auto
    next
      case True
      obtain s1 t where b: "sendToGpt_begin (text' s) s = (s1, Some t)" and lt: "late t"
        and f: "isRecording s1 = isRecording s" "loading s1 = loading s"
               "AIResponse s1 = AIResponse s"
        by (simp add: block_defs)
      from True x have nr: "\<not> isRecording s" by (simp add: flags_of_def)
      have "calm (s1, ts @ [t])"
      proof (rule calmI)
        show "exclusive (flags_of s1)" using x f by (simp add: flags_of_def)
      next
        fix u assume "u \<in> set (ts @ [t])" and "early u"
        with ne True lt late_not_early show
          "ts @ [t] = [u] \<and> \<not> isRecording s1 \<and> \<not> loading s1 \<and> \<not> AIResponse s1"
          by auto
      next
        fix u assume "u \<in> set (ts @ [t])" and "late u"
        from nr f show "\<not> isRecording s1" by simp
      qed
      with Regenerate True b show ?thesis by simp
    qed
  next
    case Replay
    with c show ?thesis
      by (auto simp add: calm_def block_defs)
  qed
qed

lemma calm_fire: "calm \<sigma> \<Longrightarrow> calm (fire k \<sigma>)"
proof -
  assume c0: "calm \<sigma>"
  obtain s ts where \<sigma>: "\<sigma> = (s, ts)" by (cases \<sigma>)
  with c0 have c: "calm (s, ts)" by simp
  let ?s1 = "timeout_callback k (s\<lparr>timers := filter (\<lambda>(i, r). i \<noteq> k) (timers s)\<rparr>)"
  have f1: "isRecording ?s1 = isRecording s" "\<not> loading ?s1" "AIResponse ?s1 = AIResponse s"
    by (simp_all add: block_defs)
  have f2: "isRecording (sendToGpt_catch ?s1) = isRecording s" "\<not> loading (sendToGpt_catch ?s1)"
    "AIResponse (sendToGpt_catch ?s1) = AIResponse s"
    by (simp_all add: block_defs)
  have keep: "calm (s', ts')"
    if "isRecording s' = isRecording s" "\<not> loading s'" "AIResponse s' = AIResponse s"
      "set ts' \<subseteq> set ts" "ts' = ts \<or> (\<forall>t\<in>set ts. early t \<longrightarrow> False)" for s' ts'
  proof (rule calmI)
    show "exclusive (flags_of s')"
      using calm_exclusive [OF c] that(1,2,3) by (simp add: flags_of_def)
  next
    fix u assume u: "u \<in> set ts'" "early u"
    with that(4) have "u \<in> set ts" by auto
    from calm_early [OF c this u(2)] that u show
      "ts' = [u] \<and> \<not> isRecording s' \<and> \<not> loading s' \<and> \<not> AIResponse s'"
      by auto
  next
    fix u assume u: "u \<in> set ts'" "late u"
    with that(4) have "u \<in> set ts" by auto
    from calm_late [OF c this u(2)] that(1) show "\<not> isRecording s'" by simp
  qed
  have noearly: "\<forall>t\<in>set ts. early t \<longrightarrow> False" if "list_ex (awaits_reply k) ts"
  proof (intro ballI impI)
    fix t assume t: "t \<in> set ts" "early t"
    from that obtain u where u: "u \<in> set ts" "awaits_reply k u" by (auto simp add: list_ex_iff)
    from calm_early [OF c t] have "ts = [t]" by simp
    with u have "u = t" by simp
    with u(2) t(2) show False by (cases t) simp_all
  qed
  show ?thesis
    unfolding \<sigma> fire_def
    using c keep [OF f1, of ts] keep [OF f2, of "filter (\<lambda>t. \<not> awaits_reply k t) ts"] noearly
    by (auto simp add: Let_def)
qed

lemma calm_Done: "calm (s, ts) \<Longrightarrow> calm (react key Done (s, ts))"
  by (auto simp add: calm_def block_defs)

lemma calm_exec: "calm \<sigma> \<Longrightarrow> undisturbed key es \<sigma> \<Longrightarrow> calm (exec key es \<sigma>)"
proof (induction es arbitrary: \<sigma>)
  case Nil
  then show ?case by simp
next
  case (Cons e es)
  obtain s ts where \<sigma>: "\<sigma> = (s, ts)" by (cases \<sigma>)
  have u: "undisturbed key es (react key e \<sigma>)"
    using Cons.prems(2) by (cases e; cases "case e of Press c \<Rightarrow> c | _ \<Rightarrow> Stop") auto
  have "calm (react key e \<sigma>)"
  proof (cases e)
    case (Press c)
    have "ts = []" if "c = Mic"
      using that Press Cons.prems(2) \<sigma> by simp
    from calm_press [OF _ this] Cons.prems(1) \<sigma> Press show ?thesis by simp
  next
    case (Settle i w)
    with calm_react_Settle Cons.prems(1) \<sigma> show ?thesis by simp
  next
    case (Fire k)
    with calm_fire [OF Cons.prems(1)] show ?thesis by simp
  next
    case Done
    with calm_Done Cons.prems(1) \<sigma> show ?thesis by simp
  qed
  from Cons.IH [OF this u] show ?case by simp
qed

subsection \<open>Network requests in the trace\<close>

lemma requests_append [simp]: "requests (xs @ ys) = requests xs @ requests ys"
  by (induction xs rule: requests.induct) simp_all

lemma chat_requests_append [simp]:
  "chat_requests (xs @ ys) = chat_requests xs @ chat_requests ys"
  by (induction xs rule: chat_requests.induct) simp_all

lemma requests_timeout_effects [simp]: "requests (timeout_effects ms ts) = []"
  by (induction ms ts rule: timeout_effects.induct) simp_all

lemma chat_requests_timeout_effects [simp]: "chat_requests (timeout_effects ms ts) = []"
  by (induction ms ts rule: timeout_effects.induct) simp_all

lemma emit_fields [simp]:
  "text' (emit e s) = text' s"
  "isRecording (emit e s) = isRecording s"
  "loading (emit e s) = loading s"
  "recording (emit e s) = recording s"
  "AIResponse (emit e s) = AIResponse s"
  "AISpeaking (emit e s) = AISpeaking s"
  "timers (emit e s) = timers s"
  "next_timer (emit e s) = next_timer s"
  "utterances (emit e s) = utterances s"
  "trace (emit e s) = trace s @ [e]"
  by (simp_all add: emit_def)

lemma perform_requests:
  "requests (trace (perform es s)) = requests (trace s) @ requests es"
  by (induction es s rule: perform.induct) simp_all

lemma whisper_loop_no_chat: "chat_requests (snd (whisper_loop endpoint uri retries attempt)) = []"
proof (induction endpoint uri retries attempt rule: whisper_loop.induct)
  case (1 endpoint uri retries attempt)
  show ?case
    using 1 by (subst whisper_loop.simps) (simp add: Let_def split_beta split: whisper_reply.splits)
qed

lemma sendAudioToWhisper_no_chat:
  "chat_requests (snd (sendAudioToWhisper endpoint uri retries)) = []"
  by (simp add: sendAudioToWhisper_def split_beta whisper_loop_no_chat)

lemma whisper_loop_first_upload:
  "attempt \<le> retries \<Longrightarrow>
   hd (requests (snd (whisper_loop endpoint uri retries attempt))) = Upload attempt uri
   \<and> requests (snd (whisper_loop endpoint uri retries attempt)) \<noteq> []"
  by (subst (1 2) whisper_loop.simps) (simp add: Let_def split_beta split: whisper_reply.splits)

lemma sendToGpt_requests:
  "requests (trace (sendToGpt reply inputText s)) = requests (trace s) @ [ChatRequest inputText]"
  by (cases reply)
     (simp_all add: sendToGpt_def sendToGpt_catch_def clearTimeout_def speakText_def alert_def
       setLoading_def setAIResponse_def setText_def setAISpeaking_def Let_def split: list.splits)

lemma sendToGpt_loading: "\<not> loading (sendToGpt reply inputText s)"
  by (cases reply)
     (simp_all add: sendToGpt_def sendToGpt_catch_def clearTimeout_def speakText_def alert_def
       setLoading_def setAIResponse_def setText_def setAISpeaking_def Let_def split: list.splits)

subsection \<open>Evaluating sample runs\<close>

lemmas eval_defs =
  handler_defs elapse_def init_def hello_world_def silent_world_def no_session_world_def

lemma whisper_loop_first_answer:
  "whisper_loop (\<lambda>attempt. Transcribed t) uri 3 (Suc 0) = (Some t, [Upload 1 uri])"
  by (subst whisper_loop.simps) simp

lemmas exec_defs = block_defs fire_def init_def hello_world_def sample_cycle_def

text \<open>
  On the successful cycle the handlers suspended at their awaits and the handlers run to
  their end arrive at the same state.
\<close>

lemma exec_cycle_is_run:
  "exec (Some ''sk-test'') sample_cycle (init, []) =
     (run (Some ''sk-test'') [PressMic hello_world, PressStop hello_world] init, [])"
  by (simp add: exec_defs eval_defs whisper_loop_first_answer)

subsection \<open>Backoff of the transcription client\<close>

text \<open>
  Claim C1. A transcription attempt that is answered with HTTP 429 while attempts remain
  is followed by a wait of \<open>2 ^ attempt\<close> seconds (\<open>2 ^ attempt * 1000\<close> ms) and
  then by the next attempt; attempts are numbered from 1. For an endpoint that answers
  429 twice and then succeeds, the call waits 2000 ms after attempt 1 and 4000 ms after
  attempt 2 and returns the text of attempt 3.
\<close>

theorem whisper_backoff_2_pow_attempt:
  "(endpoint attempt = RateLimited \<and> attempt < retries \<longrightarrow>
      whisper_loop endpoint uri retries attempt =
        (fst (whisper_loop endpoint uri retries (Suc attempt)),
         Upload attempt uri # ConsoleWarn (2 ^ attempt) # Delay (2 ^ attempt * 1000)
           # snd (whisper_loop endpoint uri retries (Suc attempt))))
   \<and> (endpoint 1 = RateLimited \<and> endpoint 2 = RateLimited \<and> endpoint 3 = Transcribed t \<longrightarrow>
      sendAudioToWhisper endpoint uri 3 =
        (Some t, [Delay 500, Upload 1 uri, ConsoleWarn 2, Delay 2000,
                  Upload 2 uri, ConsoleWarn 4, Delay 4000, Upload 3 uri]))"
proof (intro conjI impI)
  assume "endpoint attempt = RateLimited \<and> attempt < retries"
  then show "whisper_loop endpoint uri retries attempt =
        (fst (whisper_loop endpoint uri retries (Suc attempt)),
         Upload attempt uri # ConsoleWarn (2 ^ attempt) # Delay (2 ^ attempt * 1000)
           # snd (whisper_loop endpoint uri retries (Suc attempt)))"
    by (subst whisper_loop.simps) (simp add: Let_def split_beta)
next
  assume h: "endpoint 1 = RateLimited \<and> endpoint 2 = RateLimited \<and> endpoint 3 = Transcribed t"
  have l3: "whisper_loop endpoint uri 3 3 = (Some t, [Upload 3 uri])"
    using h by (subst whisper_loop.simps) simp
  have l2: "whisper_loop endpoint uri 3 2 =
      (Some t, [Upload 2 uri, ConsoleWarn 4, Delay 4000, Upload 3 uri])"
    using h l3 by (subst whisper_loop.simps) simp
  have l1: "whisper_loop endpoint uri 3 1 =
      (Some t, [Upload 1 uri, ConsoleWarn 2, Delay 2000,
                Upload 2 uri, ConsoleWarn 4, Delay 4000, Upload 3 uri])"
    using h l2 by (subst whisper_loop.simps) (simp add: numeral_2_eq_2)
  show "sendAudioToWhisper endpoint uri 3 =
        (Some t, [Delay 500, Upload 1 uri, ConsoleWarn 2, Delay 2000,
                  Upload 2 uri, ConsoleWarn 4, Delay 4000, Upload 3 uri])"
    using l1 by (simp add: sendAudioToWhisper_def)
qed

theorem whisper_backoff_2_pow_attempt_witness:
  "third_time_lucky 1 = RateLimited \<and> (1::nat) < 3 \<and> third_time_lucky 2 = RateLimited
   \<and> third_time_lucky 3 = Transcribed ''Hello''
   \<and> whisper_loop third_time_lucky ''a.wav'' 3 1 =
        (fst (whisper_loop third_time_lucky ''a.wav'' 3 (Suc 1)),
         Upload 1 ''a.wav'' # ConsoleWarn (2 ^ 1) # Delay (2 ^ 1 * 1000)
           # snd (whisper_loop third_time_lucky ''a.wav'' 3 (Suc 1)))
   \<and> sendAudioToWhisper third_time_lucky ''a.wav'' 3 =
        (Some ''Hello'', [Delay 500, Upload 1 ''a.wav'', ConsoleWarn 2, Delay 2000,
                  Upload 2 ''a.wav'', ConsoleWarn 4, Delay 4000, Upload 3 ''a.wav''])"
  using whisper_backoff_2_pow_attempt [of third_time_lucky 1 3 "''a.wav''" "''Hello''"]
  by (simp add: third_time_lucky_def)

subsection \<open>Exhausted attempts\<close>

text \<open>
  Claim C2. Against an endpoint that answers HTTP 429 on each of the three attempts the
  call uploads exactly three times (attempts 1, 2, 3; whatever the endpoint would answer
  to a fourth is never asked for), shows the rate-limit notice after the third and
  returns \<open>null\<close>.
\<close>

theorem whisper_gives_up_after_three:
  "endpoint 1 = RateLimited \<and> endpoint 2 = RateLimited \<and> endpoint 3 = RateLimited \<longrightarrow>
     sendAudioToWhisper endpoint uri 3 =
       (None, [Delay 500, Upload 1 uri, ConsoleWarn 2, Delay 2000,
               Upload 2 uri, ConsoleWarn 4, Delay 4000, Upload 3 uri,
               Alert ''Rate Limit Reached''
                     ''Too many requests. Please wait a moment and try again.''])
     \<and> uploads (snd (sendAudioToWhisper endpoint uri 3)) = [1, 2, 3]"
proof
  assume h: "endpoint 1 = RateLimited \<and> endpoint 2 = RateLimited \<and> endpoint 3 = RateLimited"
  have l3: "whisper_loop endpoint uri 3 3 =
      (None, [Upload 3 uri, Alert ''Rate Limit Reached''
                     ''Too many requests. Please wait a moment and try again.''])"
    using h by (subst whisper_loop.simps) simp
  have l2: "whisper_loop endpoint uri 3 2 =
      (None, [Upload 2 uri, ConsoleWarn 4, Delay 4000, Upload 3 uri,
              Alert ''Rate Limit Reached''
                     ''Too many requests. Please wait a moment and try again.''])"
    using h l3 by (subst whisper_loop.simps) simp
  have l1: "whisper_loop endpoint uri 3 1 =
      (None, [Upload 1 uri, ConsoleWarn 2, Delay 2000,
              Upload 2 uri, ConsoleWarn 4, Delay 4000, Upload 3 uri,
              Alert ''Rate Limit Reached''
                     ''Too many requests. Please wait a moment and try again.''])"
    using h l2 by (subst whisper_loop.simps) (simp add: numeral_2_eq_2)
  show "sendAudioToWhisper endpoint uri 3 =
       (None, [Delay 500, Upload 1 uri, ConsoleWarn 2, Delay 2000,
               Upload 2 uri, ConsoleWarn 4, Delay 4000, Upload 3 uri,
               Alert ''Rate Limit Reached''
                     ''Too many requests. Please wait a moment and try again.''])
     \<and> uploads (snd (sendAudioToWhisper endpoint uri 3)) = [1, 2, 3]"
    using l1 by (simp add: sendAudioToWhisper_def)
qed

theorem whisper_gives_up_after_three_witness:
  "fourth_would_answer 1 = RateLimited \<and> fourth_would_answer 2 = RateLimited
   \<and> fourth_would_answer 3 = RateLimited \<and> fourth_would_answer 4 = Transcribed ''Hello''
   \<and> fst (sendAudioToWhisper fourth_would_answer ''a.wav'' 3) = None
   \<and> uploads (snd (sendAudioToWhisper fourth_would_answer ''a.wav'' 3)) = [1, 2, 3]"
  using whisper_gives_up_after_three [of fourth_would_answer "''a.wav''"]
  by (simp add: fourth_would_answer_def)

subsection \<open>Other transcription errors\<close>

text \<open>
  Claim C3. An attempt that fails with anything but HTTP 429 ends the call: the generic
  transcription-failure notice is shown and \<open>null\<close> is returned, with no further
  upload and no backoff wait after that attempt (from any attempt of the loop, and for
  the whole call when it is the first attempt).
\<close>

theorem whisper_other_error_is_final:
  "(endpoint attempt = WhisperError \<and> attempt \<le> retries \<longrightarrow>
      whisper_loop endpoint uri retries attempt =
        (None, [Upload attempt uri, ConsoleError ''Whisper API Error:'',
                Alert ''Error'' ''Failed to transcribe audio.'']))
   \<and> (endpoint 1 = WhisperError \<and> 1 \<le> retries \<longrightarrow>
      sendAudioToWhisper endpoint uri retries =
        (None, [Delay 500, Upload 1 uri, ConsoleError ''Whisper API Error:'',
                Alert ''Error'' ''Failed to transcribe audio.'']))"
proof -
  have loop: "whisper_loop endpoint uri retries k =
        (None, [Upload k uri, ConsoleError ''Whisper API Error:'',
                Alert ''Error'' ''Failed to transcribe audio.''])"
    if "endpoint k = WhisperError" "k \<le> retries" for k
    using that by (subst whisper_loop.simps) simp
  show ?thesis
    by (auto simp add: loop sendAudioToWhisper_def)
qed

theorem whisper_other_error_is_final_witness:
  "(\<lambda>attempt. WhisperError) (1::nat) = WhisperError \<and> (1::nat) \<le> 3
   \<and> whisper_loop (\<lambda>attempt. WhisperError) ''a.wav'' 3 1 =
        (None, [Upload 1 ''a.wav'', ConsoleError ''Whisper API Error:'',
                Alert ''Error'' ''Failed to transcribe audio.''])
   \<and> sendAudioToWhisper (\<lambda>attempt. WhisperError) ''a.wav'' 3 =
        (None, [Delay 500, Upload 1 ''a.wav'', ConsoleError ''Whisper API Error:'',
                Alert ''Error'' ''Failed to transcribe audio.''])"
  using whisper_other_error_is_final [of "\<lambda>attempt. WhisperError" 1 3 "''a.wav''"]
  by simp

subsection \<open>No credential\<close>

text \<open>
  Claim C4. Without an API key (\<open>undefined\<close> or the empty string), \<open>startRecording\<close>
  shows the configuration notice and returns: the only effect is that alert, so no
  permission request, no audio-mode call and no \<open>createAsync\<close>, and no state variable
  changes. Pressing the rendered microphone control does exactly that.
\<close>

theorem startRecording_without_key:
  "\<not> truthy key \<longrightarrow>
     startRecording key w s =
       s\<lparr>trace := trace s @ [Alert ''Configuration Error'' ''OpenAI API Key is missing.''],
         frames := frames s @ [flags_of s]\<rparr>
     \<and> (\<not> loading s \<and> \<not> isRecording s \<and> \<not> AIResponse s \<longrightarrow>
          trace (step key (PressMic w) s) =
            trace s @ [Alert ''Configuration Error'' ''OpenAI API Key is missing.'']
          \<and> isRecording (step key (PressMic w) s) = False
          \<and> recording (step key (PressMic w) s) = recording s)"
  by (simp add: startRecording_def alert_def emit_def)

theorem startRecording_without_key_witness:
  "\<not> truthy None \<and> \<not> loading init \<and> \<not> isRecording init \<and> \<not> AIResponse init
   \<and> trace (step None (PressMic hello_world) init) =
        [Alert ''Configuration Error'' ''OpenAI API Key is missing.'']
   \<and> isRecording (step None (PressMic hello_world) init) = False
   \<and> recording (step None (PressMic hello_world) init) = None"
  using startRecording_without_key [of None hello_world init]
  by (simp add: init_def)

subsection \<open>The deadline of the response client\<close>




subsection \<open>Regenerate\<close>

text \<open>
  Claim C6 asks that regenerate sends the transcript again. The component keeps
  transcript and response in the one variable \<open>text\<close>: line 192 overwrites the
  transcript with the response, and line 348 passes \<open>text\<close> to \<open>sendToGpt\<close>. With
  the transcript "Hello" answered by "Hi there", regenerate sends "Hi there".
\<close>

theorem regenerate_sends_response_text:
  "text' (run (Some ''sk-test'') [PressMic hello_world, PressStop hello_world] init) = ''Hi there''
   \<and> chat_requests (trace (run (Some ''sk-test'')
        [PressMic hello_world, PressStop hello_world,
         PressRegenerate (Replies 800 [''Hi again''])] init))
       = [''Hello'', ''Hi there'']"
  by (simp add: eval_defs whisper_loop_first_answer)

subsection \<open>Errors and the recording flag\<close>

text \<open>
  Claim C7 asks that no error path leaves the recording flag set. Line 63 sets
  \<open>isRecording\<close> before \<open>createAsync\<close> is awaited in line 64, and the \<open>catch\<close>
  block of lines 69-72 does not clear it (the \<open>catch\<close> blocks of \<open>stopRecording\<close>
  and \<open>sendToGpt\<close> do clear \<open>loading\<close>). When \<open>createAsync\<close> throws, the notice
  is shown and the screen stays in Recording with no recording object.
\<close>

theorem startRecording_failure_keeps_isRecording:
  "isRecording (startRecording (Some ''sk-test'') no_session_world init)
   \<and> recording (startRecording (Some ''sk-test'') no_session_world init) = None
   \<and> trace (startRecording (Some ''sk-test'') no_session_world init) =
       [RequestPermission, SetAudioMode True, CreateRecording,
        ConsoleError ''Failed to start recording:'',
        Alert ''Error'' ''Failed to start recording.'']
   \<and> classify (flags_of (startRecording (Some ''sk-test'') no_session_world init))
       = Some Recording"
  by (simp add: eval_defs)

subsection \<open>From transcription to response\<close>

text \<open>
  Claim C8 says that the response client is called if and only if transcription
  succeeds. Line 89 tests the transcript for truthiness: a transcription that succeeds
  with the empty text (a silent recording) is followed by no chat-completion request.
\<close>

theorem empty_transcript_no_chat_request:
  "fst (sendAudioToWhisper (whisper silent_world) ''file:///recording.wav'' 3) = Some []
   \<and> uploads (trace (run (Some ''sk-test'') [PressMic silent_world, PressStop silent_world] init))
       = [1]
   \<and> chat_requests
        (trace (run (Some ''sk-test'') [PressMic silent_world, PressStop silent_world] init))
       = []"
  by (simp add: eval_defs whisper_loop_first_answer)

text \<open>
  Claim C8, as the code has it. When the recording stops and yields a URI, the uploads of
  the transcription client come first, beginning with attempt 1, and the transcription
  client itself sends no chat-completion request. One chat-completion request follows,
  with the transcript as content, if and only if the transcription returned a non-empty
  text; after \<open>null\<close> or the empty text none follows. When there is no recording
  object, or stopping it or resetting the audio mode throws, or no URI comes back,
  neither client sends a request. In every case \<open>loading\<close> is clear when
  \<open>stopRecording\<close> ends.
\<close>

theorem stopRecording_chat_iff_transcript_nonempty:
  "(recording s = Some h \<and> unload w \<and> audio_mode w \<and> get_uri w = Some uri \<and> uri \<noteq> [] \<longrightarrow>
      requests (trace (stopRecording w s)) =
        requests (trace s) @ requests (snd (sendAudioToWhisper (whisper w) uri 3))
          @ (case fst (sendAudioToWhisper (whisper w) uri 3) of
               None \<Rightarrow> []
             | Some t \<Rightarrow> if t = [] then [] else [ChatRequest t])
      \<and> hd (requests (snd (sendAudioToWhisper (whisper w) uri 3))) = Upload 1 uri
      \<and> chat_requests (snd (sendAudioToWhisper (whisper w) uri 3)) = []
      \<and> \<not> loading (stopRecording w s))
   \<and> (recording s = None \<or> \<not> unload w \<or> \<not> audio_mode w \<or> \<not> truthy (get_uri w) \<longrightarrow>
      requests (trace (stopRecording w s)) = requests (trace s)
      \<and> \<not> loading (stopRecording w s))"
proof (intro conjI impI)
  assume h: "recording s = Some h \<and> unload w \<and> audio_mode w \<and> get_uri w = Some uri \<and> uri \<noteq> []"
  obtain r es where w: "sendAudioToWhisper (whisper w) uri 3 = (r, es)"
    by (cases "sendAudioToWhisper (whisper w) uri 3")
  have first: "hd (requests es) = Upload 1 uri"
    using w whisper_loop_first_upload [of 1 3 "whisper w" uri]
    by (auto simp add: sendAudioToWhisper_def split_beta)
  have nochat: "chat_requests es = []"
    using sendAudioToWhisper_no_chat [of "whisper w" uri 3] w by simp
  have req: "requests (trace (stopRecording w s)) =
       requests (trace s) @ requests es
         @ (case r of None \<Rightarrow> [] | Some t \<Rightarrow> if t = [] then [] else [ChatRequest t])"
    using h w
    by (cases r)
       (simp_all add: stopRecording_def Let_def perform_requests sendToGpt_requests
         setLoading_def setIsRecording_def setText_def)
  show "requests (trace (stopRecording w s)) =
        requests (trace s) @ requests (snd (sendAudioToWhisper (whisper w) uri 3))
          @ (case fst (sendAudioToWhisper (whisper w) uri 3) of
               None \<Rightarrow> []
             | Some t \<Rightarrow> if t = [] then [] else [ChatRequest t])"
    using req by (simp add: w)
  show "hd (requests (snd (sendAudioToWhisper (whisper w) uri 3))) = Upload 1 uri"
    using first by (simp add: w)
  show "chat_requests (snd (sendAudioToWhisper (whisper w) uri 3)) = []"
    using nochat by (simp add: w)
  show "\<not> loading (stopRecording w s)"
    using h w
    by (cases r)
       (simp_all add: stopRecording_def Let_def sendToGpt_loading setLoading_def)
next
  assume f: "recording s = None \<or> \<not> unload w \<or> \<not> audio_mode w \<or> \<not> truthy (get_uri w)"
  then show "requests (trace (stopRecording w s)) = requests (trace s)"
    by (cases "recording s")
       (auto simp add: stopRecording_def stopRecording_catch_def alert_def Let_def
         setLoading_def setIsRecording_def)
  from f show "\<not> loading (stopRecording w s)"
    by (cases "recording s")
       (auto simp add: stopRecording_def stopRecording_catch_def alert_def Let_def
         setLoading_def setIsRecording_def)
qed

theorem stopRecording_chat_iff_transcript_nonempty_witness:
  "recording (step (Some ''sk-test'') (PressMic hello_world) init) = Some 1
   \<and> unload hello_world \<and> audio_mode hello_world
   \<and> get_uri hello_world = Some ''file:///recording.wav'' \<and> ''file:///recording.wav'' \<noteq> []
   \<and> requests (trace (stopRecording hello_world (step (Some ''sk-test'') (PressMic hello_world) init)))
       = [Upload 1 ''file:///recording.wav'', ChatRequest ''Hello'']
   \<and> \<not> loading (stopRecording hello_world (step (Some ''sk-test'') (PressMic hello_world) init))
   \<and> recording init = None
   \<and> requests (trace (stopRecording hello_world init)) = []
   \<and> \<not> loading (stopRecording hello_world init)"
  using stopRecording_chat_iff_transcript_nonempty
    [of "step (Some ''sk-test'') (PressMic hello_world) init" 1 hello_world
        "''file:///recording.wav''"]
    stopRecording_chat_iff_transcript_nonempty [of init 1 hello_world "''file:///recording.wav''"]
  by (simp add: eval_defs whisper_loop_first_answer)

subsection \<open>One state at a time\<close>

text \<open>
  Claim C9 says that the four flags only take the five valid combinations, in every
  reachable state. Three ways out of them:
  \<^item> The back control (lines 245-249) resets \<open>isRecording\<close>, \<open>AIResponse\<close> and
    \<open>text\<close> but neither stops the speech nor clears \<open>AISpeaking\<close>: pressed while the
    response is spoken it leaves \<open>AISpeaking\<close> as the only flag set, and the
    microphone, rendered again, then sets \<open>isRecording\<close> beside it.
  \<^item> \<open>sendToGpt\<close> does not set \<open>loading\<close>, so while the request of a regenerate
    is pending the controls stay rendered: back and then the microphone are pressed, the
    recording starts, and the late reply (lines 192-194) sets \<open>AIResponse\<close> beside
    \<open>isRecording\<close>.
  \<^item> In the plain successful cycle, when the reply arrives, line 193 sets
    \<open>AIResponse\<close> while \<open>loading\<close> is still set; line 194 clears it afterwards.
\<close>

theorem flags_outside_the_five_states:
  "flags_of (run (Some ''sk-test'')
      [PressMic hello_world, PressStop hello_world, PressBack] init)
     = (False, False, False, True)
   \<and> classify (False, False, False, True) = None
   \<and> flags_of (run (Some ''sk-test'')
        [PressMic hello_world, PressStop hello_world, PressBack, PressMic hello_world] init)
       = (True, False, False, True)
   \<and> classify (True, False, False, True) = None
   \<and> flags_of (fst (exec (Some ''sk-test'')
        (sample_cycle @ [Done, Press Regenerate, Press Back, Press Mic,
                         Settle 1 hello_world, Settle 1 hello_world, Settle 1 hello_world,
                         Settle 0 hello_world, Settle 0 hello_world]) (init, [])))
       = (True, False, True, True)
   \<and> classify (True, False, True, True) = None
   \<and> snd (exec (Some ''sk-test'') (take 10 sample_cycle) (init, []))
       = [AwaitGptReply 0 ''Hello'']
   \<and> flags_of (setAIResponse True (setText ''Hi there''
        (clearTimeout 0 (fst (exec (Some ''sk-test'') (take 10 sample_cycle) (init, []))))))
       = (False, True, True, False)
   \<and> classify (False, True, True, False) = None"
  by (simp add: exec_defs eval_defs whisper_loop_first_answer)

text \<open>
  Claim C9, as the code has it. As long as the microphone is not pressed while a handler
  is in flight, then whenever the program waits (each handler in flight is suspended at
  an \<open>await\<close>, or none is in flight), whatever the services answer, whichever other
  controls are pressed and whenever timers and the speech engine call back, at most one
  of \<open>isRecording\<close>, \<open>loading\<close> and \<open>AIResponse\<close> is set: these three flags
  select exactly one of Idle, Recording, Processing and ResponseReady. \<open>AISpeaking\<close>
  is not part of this: it is set from \<open>speakText\<close> to \<open>onDone\<close> whatever the other
  flags become.
\<close>

theorem flags_exclusive_when_undisturbed:
  "undisturbed key es (init, []) \<longrightarrow>
     exclusive (flags_of (fst (exec key es (init, []))))
     \<and> classify (isRecording (fst (exec key es (init, []))),
                  loading (fst (exec key es (init, []))),
                  AIResponse (fst (exec key es (init, []))), False) \<noteq> None"
proof
  assume u: "undisturbed key es (init, [])"
  have "calm (init, [])"
    by (simp add: calm_def init_def flags_of_def)
  from calm_exec [OF this u] have "calm (exec key es (init, []))" .
  then have e: "exclusive (flags_of (fst (exec key es (init, []))))"
    by (cases "exec key es (init, [])") (simp add: calm_exclusive)
  then have "classify (isRecording (fst (exec key es (init, []))),
                  loading (fst (exec key es (init, []))),
                  AIResponse (fst (exec key es (init, []))), False) \<noteq> None"
    by (cases "isRecording (fst (exec key es (init, [])))";
        cases "loading (fst (exec key es (init, [])))";
        cases "AIResponse (fst (exec key es (init, [])))")
       (simp_all add: flags_of_def)
  with e show "exclusive (flags_of (fst (exec key es (init, []))))
     \<and> classify (isRecording (fst (exec key es (init, []))),
                  loading (fst (exec key es (init, []))),
                  AIResponse (fst (exec key es (init, []))), False) \<noteq> None"
    by simp
qed

theorem flags_exclusive_when_undisturbed_witness:
  "undisturbed (Some ''sk-test'')
     (sample_cycle @ [Press Regenerate, Press Replay, Press Back,
                      Settle 0 hello_world, Settle 0 hello_world, Done, Press Mic])
     (init, [])
   \<and> exclusive (flags_of (fst (exec (Some ''sk-test'')
       (sample_cycle @ [Press Regenerate, Press Replay, Press Back,
                        Settle 0 hello_world, Settle 0 hello_world, Done, Press Mic])
       (init, []))))"
  using flags_exclusive_when_undisturbed [of "Some ''sk-test''"
      "sample_cycle @ [Press Regenerate, Press Replay, Press Back,
                       Settle 0 hello_world, Settle 0 hello_world, Done, Press Mic]"]
  by (simp add: exec_defs)

subsection \<open>A failed request and its timer\<close>

text \<open>
  Claim C10. When the chat-completion request is rejected \<open>l\<close> ms after it was sent,
  with \<open>500 + l < 10000\<close>, the \<open>catch\<close> block shows the generic failure notice and
  no \<open>clearTimeout\<close> happens: the call ends with its timer still armed, with
  \<open>10000 - (500 + l)\<close> ms to go. For any shorter time the timer stays armed and only
  timers of earlier calls can run; once that time has passed, 10 seconds after the call
  began, its callback runs \<open>abort\<close> and shows the timeout notice after the failure
  notice of the same call.
\<close>

theorem failed_request_leaves_timer_armed:
  "500 + l < 10000 \<longrightarrow>
     trace (sendToGpt (Fails l) inputText s) =
       trace s @ [SetTimeout (next_timer s) 10000, Delay 500]
         @ timeout_effects 500 (timers s)
         @ [ChatRequest inputText]
         @ timeout_effects l (timers (elapse 500 s))
         @ [ConsoleError ''Error sending text to GPT:'',
            Alert ''Error'' ''Failed to get AI response.'']
     \<and> timers (sendToGpt (Fails l) inputText s) =
         timers (elapse l (elapse 500 s)) @ [(next_timer s, 10000 - (500 + l))]
     \<and> (ms < 10000 - (500 + l) \<longrightarrow>
          trace (elapse ms (sendToGpt (Fails l) inputText s)) =
            trace (sendToGpt (Fails l) inputText s)
              @ timeout_effects ms (timers (elapse l (elapse 500 s)))
          \<and> (next_timer s, 10000 - (500 + l) - ms)
               \<in> set (timers (elapse ms (sendToGpt (Fails l) inputText s))))
     \<and> trace (elapse (10000 - (500 + l)) (sendToGpt (Fails l) inputText s)) =
         trace (sendToGpt (Fails l) inputText s)
           @ timeout_effects (10000 - (500 + l)) (timers (elapse l (elapse 500 s)))
           @ [Abort (next_timer s), Alert ''Timeout'' ''The server took too long to respond.'']
     \<and> \<not> loading (elapse (10000 - (500 + l)) (sendToGpt (Fails l) inputText s))"
proof (intro impI conjI)
  assume "500 + l < 10000"
  then have l: "l < 9500" by simp
  have eq: "10000 - (500 + l) = 9500 - l" by simp
  note t = sendToGpt_Fails_timers [OF l, of inputText s]
  show "trace (sendToGpt (Fails l) inputText s) =
       trace s @ [SetTimeout (next_timer s) 10000, Delay 500]
         @ timeout_effects 500 (timers s)
         @ [ChatRequest inputText]
         @ timeout_effects l (timers (elapse 500 s))
         @ [ConsoleError ''Error sending text to GPT:'',
            Alert ''Error'' ''Failed to get AI response.'']"
    by (rule sendToGpt_Fails_trace [OF l])
  show "timers (sendToGpt (Fails l) inputText s) =
         timers (elapse l (elapse 500 s)) @ [(next_timer s, 10000 - (500 + l))]"
    unfolding eq by (rule t)
  show "trace (elapse (10000 - (500 + l)) (sendToGpt (Fails l) inputText s)) =
         trace (sendToGpt (Fails l) inputText s)
           @ timeout_effects (10000 - (500 + l)) (timers (elapse l (elapse 500 s)))
           @ [Abort (next_timer s), Alert ''Timeout'' ''The server took too long to respond.'']"
    unfolding eq by (simp add: t)
  show "\<not> loading (elapse (10000 - (500 + l)) (sendToGpt (Fails l) inputText s))"
    unfolding eq by (simp add: t)
  assume ms: "ms < 10000 - (500 + l)"
  show "trace (elapse ms (sendToGpt (Fails l) inputText s)) =
            trace (sendToGpt (Fails l) inputText s)
              @ timeout_effects ms (timers (elapse l (elapse 500 s)))"
    using ms by (simp add: t)
  show "(next_timer s, 10000 - (500 + l) - ms)
               \<in> set (timers (elapse ms (sendToGpt (Fails l) inputText s)))"
    using ms by (simp add: t)
qed

theorem failed_request_leaves_timer_armed_witness:
  "(500::nat) + 100 < 10000
   \<and> trace (sendToGpt (Fails 100) ''Hello'' init) =
       [SetTimeout 0 10000, Delay 500, ChatRequest ''Hello'',
        ConsoleError ''Error sending text to GPT:'',
        Alert ''Error'' ''Failed to get AI response.'']
   \<and> timers (sendToGpt (Fails 100) ''Hello'' init) = [(0, 9400)]
   \<and> (9399::nat) < 10000 - (500 + 100)
   \<and> trace (elapse 9399 (sendToGpt (Fails 100) ''Hello'' init)) =
       trace (sendToGpt (Fails 100) ''Hello'' init)
   \<and> trace (elapse 9400 (sendToGpt (Fails 100) ''Hello'' init)) =
       [SetTimeout 0 10000, Delay 500, ChatRequest ''Hello'',
        ConsoleError ''Error sending text to GPT:'',
        Alert ''Error'' ''Failed to get AI response.'',
        Abort 0, Alert ''Timeout'' ''The server took too long to respond.'']"
  using failed_request_leaves_timer_armed [of 100 "''Hello''" init 9399]
  by (simp add: init_def)

end
